theory Spec2Isabelle
  imports Main
begin

section \<open>JavaScript arrays, strings and sets as lib/audit.js uses them\<close>

text \<open>
  \<open>String.prototype.split\<close> with a one-character separator: the pieces between the
  separators, in order; a string without the separator (the empty string too) gives the
  one-element array holding it.
\<close>

fun split :: "char \<Rightarrow> string \<Rightarrow> string list" where
  "split sep [] = [[]]"
| "split sep (c # cs) =
     (if c = sep then [] # split sep cs
      else (case split sep cs of [] \<Rightarrow> [[c]] | w # ws \<Rightarrow> (c # w) # ws))"

text \<open>\<open>Array.prototype.join\<close> on an array of strings.\<close>

fun join :: "string \<Rightarrow> string list \<Rightarrow> string" where
  "join sep [] = []"
| "join sep [x] = x"
| "join sep (x # y # ys) = x @ sep @ join sep (y # ys)"

text \<open>\<open>Array.prototype.indexOf\<close>: the first index holding the value, \<open>-1\<close> when none does.\<close>

fun indexOf :: "'a list \<Rightarrow> 'a \<Rightarrow> int" where
  "indexOf [] x = - 1"
| "indexOf (y # ys) x =
     (if y = x then 0 else (let k = indexOf ys x in if k < 0 then - 1 else k + 1))"

text \<open>
  \<open>Array.prototype.slice(begin, end)\<close>: a negative bound counts from the end of the array,
  and both bounds are clamped to the array.
\<close>

definition slice :: "'a list \<Rightarrow> int \<Rightarrow> int \<Rightarrow> 'a list" where
  "slice xs b e =
     (let n = int (length xs);
          k = (if b < 0 then max (n + b) 0 else min b n);
          final = (if e < 0 then max (n + e) 0 else min e n)
      in take (nat (final - k)) (drop (nat k) xs))"

text \<open>
  A \<open>Set\<close> is kept as the list of its members in insertion order, which is the order
  \<open>[...set]\<close> spreads them in. \<open>Set.prototype.add\<close> compares strings by value.
\<close>

definition set_add :: "'a \<Rightarrow> 'a list \<Rightarrow> 'a list" where
  "set_add x s = (if x \<in> set s then s else s @ [x])"

text \<open>
  An object is a reference together with its contents. \<open>Set.prototype.add\<close> compares
  objects by reference, whatever their contents.
\<close>

type_synonym ref = nat

definition set_add_obj :: "ref \<times> 'a \<Rightarrow> (ref \<times> 'a) list \<Rightarrow> (ref \<times> 'a) list" where
  "set_add_obj x s = (if fst x \<in> fst ` set s then s else s @ [x])"

section \<open>Remediation actions and their classification (auditCmd, fix mode)\<close>

record vuln =
  path :: string

record remediation_action =
  module :: string
  target :: string
  action :: string
  isMajor :: bool
  resolves :: "vuln list"

record action_plan =
  install :: "string list"
  update :: "string list"
  major :: "string list"
  review :: "(ref \<times> remediation_action) list"

text \<open>The \<open>update\<close> entry one vulnerability record gives (the body of \<open>resolves.forEach\<close>).\<close>

definition update_entry :: "string \<Rightarrow> string \<Rightarrow> vuln \<Rightarrow> string" where
  "update_entry nm ver v =
     (let modPath = split CHR ''>'' (path v)
      in join ''>'' (slice modPath 0 (indexOf modPath nm) @ [nm @ ''@'' @ ver]))"

text \<open>The reducer of \<open>auditResult.actions.reduce\<close>: one action, in the order of the source's tests.\<close>

definition classify_action :: "action_plan \<Rightarrow> ref \<times> remediation_action \<Rightarrow> action_plan" where
  "classify_action acc ra =
     (let a = snd ra in
      if isMajor a then
        acc\<lparr>major := set_add (module a @ ''@'' @ target a) (major acc)\<rparr>
      else if action a = ''install'' then
        acc\<lparr>install := set_add (module a @ ''@'' @ target a) (install acc)\<rparr>
      else if action a = ''update'' then
        acc\<lparr>update := fold (\<lambda>v u. set_add (update_entry (module a) (target a) v) u)
                          (resolves a) (update acc)\<rparr>
      else if action a = ''review'' then
        acc\<lparr>review := set_add_obj ra (review acc)\<rparr>
      else acc)"

definition empty_plan :: action_plan where
  "empty_plan = \<lparr>install = [], update = [], major = [], review = []\<rparr>"

definition classify :: "(ref \<times> remediation_action) list \<Rightarrow> action_plan" where
  "classify actions = foldl classify_action empty_plan actions"

section \<open>Errors\<close>

text \<open>
  A thrown value is either the engine's \<open>TypeError\<close> (a property read or written on
  \<open>undefined\<close>) or an \<open>Error\<close> object with the properties lib/audit.js reads and sets.
\<close>

datatype error =
    TypeError
  | Error (message: string) (code: "string option") (statusCode: "int option")
      (wrapped: "error option")

text \<open>\<open>err.statusCode\<close> on any thrown value: \<open>undefined\<close> where the property is not set.\<close>

fun statusCode_of :: "error \<Rightarrow> int option" where
  "statusCode_of TypeError = None"
| "statusCode_of (Error m c s w) = s"

section \<open>The dependency tree and Auditor.loadShrinkwrap\<close>

text \<open>
  The tree is a graph of objects that the patcher mutates in place, so it is a store from
  references to nodes; \<open>requires\<close> holds references to the child nodes. A deleted or
  missing property is \<open>None\<close>.
\<close>

record node =
  name :: string
  version :: "string option"
  from' :: "string option"
  resolved :: "string option"
  requires :: "ref list option"
  integrity :: "string option"

type_synonym store = "ref \<Rightarrow> node option"

text \<open>
  What \<open>npa\<close> (the npm-package-arg library) returns for a specifier: the two properties
  the patcher reads. The parser itself is a parameter of the model; it may throw.
\<close>

record spec =
  spec_name :: "string option"
  fetchSpec :: "string option"

type_synonym npa = "string \<Rightarrow> error + spec"

text \<open>
  \<open>requires.find(n => n.name === nm)\<close> over an array of references: the first child with
  that name, or \<open>undefined\<close> (\<open>None\<close>). Reading \<open>name\<close> through a reference that holds no
  object is a \<open>TypeError\<close>.
\<close>

fun find_name :: "store \<Rightarrow> ref list \<Rightarrow> string option \<Rightarrow> error + ref option" where
  "find_name h [] nm = Inr None"
| "find_name h (r # rs) nm =
     (case h r of
        None \<Rightarrow> Inl TypeError
      | Some n \<Rightarrow> if Some (name n) = nm then Inr (Some r) else find_name h rs nm)"

text \<open>
  \<open>acc.requires.find(...)\<close>: a \<open>TypeError\<close> when \<open>acc\<close> is \<open>undefined\<close> or has no
  \<open>requires\<close>.
\<close>

definition requires_find :: "store \<Rightarrow> ref option \<Rightarrow> string option \<Rightarrow> error + ref option" where
  "requires_find h acc nm =
     (case acc of
        None \<Rightarrow> Inl TypeError
      | Some a \<Rightarrow>
          (case h a of
             None \<Rightarrow> Inl TypeError
           | Some n \<Rightarrow>
               (case requires n of
                  None \<Rightarrow> Inl TypeError
                | Some rs \<Rightarrow> find_name h rs nm)))"

text \<open>The five statements that rewrite the target node.\<close>

definition patch_node :: "spec \<Rightarrow> node \<Rightarrow> node" where
  "patch_node sp n =
     n\<lparr>version := fetchSpec sp, from' := None, resolved := None, requires := None,
       integrity := None\<rparr>"

text \<open>
  The reducer of \<open>arg.reduce\<close>, with \<open>len\<close> the value of \<open>this._deepArgs.length\<close>, \<open>acc\<close> the
  node reached so far, \<open>child\<close> the segment and \<open>i\<close> its index. It returns the next
  accumulator, or the error thrown, and the store as it is at that moment.
\<close>

definition reducer ::
  "npa \<Rightarrow> nat \<Rightarrow> store \<Rightarrow> ref option \<Rightarrow> string \<Rightarrow> nat \<Rightarrow> (error + ref option) \<times> store" where
  "reducer npa len h acc child i =
     (if int i = int len - 1 then
        (case npa child of
           Inl e \<Rightarrow> (Inl e, h)
         | Inr sp \<Rightarrow>
             (case requires_find h acc (spec_name sp) of
                Inl e \<Rightarrow> (Inl e, h)
              | Inr None \<Rightarrow> (Inl TypeError, h)
              | Inr (Some t) \<Rightarrow>
                  (case h t of
                     None \<Rightarrow> (Inl TypeError, h)
                   | Some n \<Rightarrow>
                       (let h' = h(t \<mapsto> patch_node sp n)
                        in (requires_find h' acc (Some child), h')))))
      else (requires_find h acc (Some child), h))"

text \<open>\<open>arg.reduce(reducer, this.idealTree)\<close>, from index \<open>i\<close> on.\<close>

fun reduce_arg ::
  "npa \<Rightarrow> nat \<Rightarrow> store \<Rightarrow> ref option \<Rightarrow> string list \<Rightarrow> nat \<Rightarrow> (error + ref option) \<times> store" where
  "reduce_arg npa len h acc [] i = (Inr acc, h)"
| "reduce_arg npa len h acc (child # rest) i =
     (case reducer npa len h acc child i of
        (Inl e, h') \<Rightarrow> (Inl e, h')
      | (Inr acc', h') \<Rightarrow> reduce_arg npa len h' acc' rest (Suc i))"

text \<open>\<open>this._deepArgs.forEach(arg => arg.reduce(...))\<close> over the paths still to apply.\<close>

fun forEach_deepArgs ::
  "npa \<Rightarrow> nat \<Rightarrow> ref \<Rightarrow> store \<Rightarrow> string list list \<Rightarrow> (error + unit) \<times> store" where
  "forEach_deepArgs npa len root h [] = (Inr (), h)"
| "forEach_deepArgs npa len root h (arg # args) =
     (case reduce_arg npa len h (Some root) arg 0 of
        (Inl e, h') \<Rightarrow> (Inl e, h')
      | (Inr _, h') \<Rightarrow> forEach_deepArgs npa len root h' args)"

text \<open>
  The installer as \<open>loadShrinkwrap\<close> sees it: the store, the root \<open>idealTree\<close>, whether
  \<open>idealTree.package._shrinkwrap\<close> is set, and the \<open>_deepArgs\<close> of the constructor.
\<close>

record installer =
  heap :: store
  idealTree :: ref
  shrinkwrap :: bool
  deepArgs :: "string list list"

type_synonym installer_step = "installer \<Rightarrow> (error + unit) \<times> installer"

text \<open>
  \<open>Auditor.loadShrinkwrap\<close>. \<open>readShrinkwrap\<close> and \<open>inflateShrinkwrap\<close> belong to the general
  installer and are parameters. The callback is taken to be a function, so that
  \<open>validate('F', arguments)\<close> passes; the result is what the callback receives. Without
  \<open>_shrinkwrap\<close> the method succeeds at once.
\<close>

definition loadShrinkwrap ::
  "npa \<Rightarrow> installer_step \<Rightarrow> installer_step \<Rightarrow> installer_step" where
  "loadShrinkwrap npa readShrinkwrap inflateShrinkwrap s =
     (case readShrinkwrap s of
        (Inl e, s1) \<Rightarrow> (Inl e, s1)
      | (Inr _, s1) \<Rightarrow>
          if shrinkwrap s1 then
            (case forEach_deepArgs npa (length (deepArgs s1)) (idealTree s1) (heap s1)
                    (deepArgs s1) of
               (Inl e, h') \<Rightarrow> (Inl e, s1\<lparr>heap := h'\<rparr>)
             | (Inr _, h') \<Rightarrow> inflateShrinkwrap (s1\<lparr>heap := h'\<rparr>))
          else (Inr (), s1))"

text \<open>
  What a top-level lifecycle hook acts on: the installer, and the names of the project's
  lifecycle scripts executed so far, oldest first. A hook is a method taking a callback;
  the callback receives the error, if any, and goes on from the state the hook leaves.
\<close>

record world =
  installer_of :: installer
  executed :: "string list"

type_synonym 'r hook = "(error option \<Rightarrow> world \<Rightarrow> 'r) \<Rightarrow> world \<Rightarrow> 'r"

text \<open>
  The two lifecycle overrides of the Auditor, \<open>(cb) { cb() }\<close>: the callback is called at
  once, with no error, on the state as it stands.
\<close>

definition runPreinstallTopLevelLifecycles :: "'r hook" where
  "runPreinstallTopLevelLifecycles cb w = cb None w"

definition runPostinstallTopLevelLifecycles :: "'r hook" where
  "runPostinstallTopLevelLifecycles cb w = cb None w"

text \<open>
  The two hooks of an installer class, as a run reaches them through \<open>this\<close>.
  \<open>class Auditor extends Installer\<close>: the Auditor has the methods of the base class,
  whatever they are, with the two hooks replaced by its overrides.
\<close>

record 'r lifecycle_hooks =
  preinstall_hook :: "'r hook"
  postinstall_hook :: "'r hook"

definition Auditor :: "'r lifecycle_hooks \<Rightarrow> 'r lifecycle_hooks" where
  "Auditor base =
     base\<lparr>preinstall_hook := runPreinstallTopLevelLifecycles,
          postinstall_hook := runPostinstallTopLevelLifecycles\<rparr>"

text \<open>
  Modelled from the spec: the general installer (lib/install.js) is not among the sources.
  Its top-level lifecycle hooks execute project scripts and then call back; which scripts
  each hook executes is a parameter.
\<close>

definition script_hook :: "string list \<Rightarrow> 'r hook" where
  "script_hook names cb w = cb None (w\<lparr>executed := executed w @ names\<rparr>)"

definition Installer :: "string list \<Rightarrow> string list \<Rightarrow> 'r lifecycle_hooks" where
  "Installer pre post = \<lparr>preinstall_hook = script_hook pre, postinstall_hook = script_hook post\<rparr>"

text \<open>
  Modelled from the spec: the part of the general installer's \<open>run\<close> that goes through the
  two hooks of \<open>this\<close>, the pre-install hook first. An error given to a callback ends the
  run with that error.
\<close>

definition run_top_level_lifecycles ::
  "(error option \<times> world) lifecycle_hooks \<Rightarrow> world \<Rightarrow> error option \<times> world" where
  "run_top_level_lifecycles this w =
     preinstall_hook this
       (\<lambda>er w1. case er of
                   Some e \<Rightarrow> (Some e, w1)
                 | None \<Rightarrow> postinstall_hook this (\<lambda>er2 w2. (er2, w2)) w1)
       w"

section \<open>auditCmd after the report has been requested\<close>

text \<open>
  The handler of \<open>.catch\<close> after \<open>audit.submitForFullReport\<close>: the value it throws for the
  error it caught. \<open>registry\<close> is \<open>npm.config.get('registry')\<close>. A comparison with an
  \<open>undefined\<close> status code is false.
\<close>

definition catch_handler :: "string \<Rightarrow> error \<Rightarrow> error" where
  "catch_handler registry err =
     (if statusCode_of err = Some 404
         \<or> (case statusCode_of err of None \<Rightarrow> False | Some c \<Rightarrow> c \<ge> 500)
      then Error (''Your configured registry ('' @ registry @ '') does not support audit requests.'')
             (Some ''ENOAUDIT'') None (Some err)
      else err)"

text \<open>A promise that has settled: \<open>Inl\<close> rejected, \<open>Inr\<close> fulfilled. \<open>.catch\<close> leaves a fulfilled one alone.\<close>

definition catch_stage :: "string \<Rightarrow> error + 'a \<Rightarrow> error + 'a" where
  "catch_stage registry r =
     (case r of Inl err \<Rightarrow> Inl (catch_handler registry err) | Inr v \<Rightarrow> Inr v)"

record vuln_counts =
  low :: int
  moderate :: int
  high :: int
  critical :: int

text \<open>
  The report: \<open>actions\<close> (which may be missing) and \<open>metadata.vulnerabilities\<close>. Each
  element of \<open>actions\<close> is an object of its own, so it comes with its reference.
\<close>

record audit_result =
  actions :: "(ref \<times> remediation_action) list option"
  metadata_vulnerabilities :: vuln_counts

datatype log_arg = S string | N int

datatype log_entry = Warn string string | Notice string "log_arg list"

text \<open>The process: \<open>process.exitCode\<close> (\<open>undefined\<close> until set) and the lines given to npmlog.\<close>

record process =
  exitCode :: "int option"
  log :: "log_entry list"

text \<open>The arguments of \<open>new Auditor(where, dryrun, args, opts)\<close>, with \<open>opts.deepArgs\<close>.\<close>

record auditor_args =
  where_dir :: string
  dryrun :: bool
  args :: "string list"
  opts_deepArgs :: "string list list"

text \<open>
  The body of \<open>BB.try\<close> in fix mode: the log lines written and, when there is something to
  install, the Auditor constructed. \<open>size\<close> of a set is the length of its list.
\<close>

definition fix_stage :: "string \<Rightarrow> bool \<Rightarrow> action_plan \<Rightarrow> log_entry list \<times> auditor_args option" where
  "fix_stage npm_prefix dry_run plan =
     (let l1 = (if major plan \<noteq> [] then
                  [Warn ''audit'' ''some security updates involve breaking changes'',
                   Warn ''audit'' ''and will not be updated automatically.'',
                   Warn ''audit'' ''To update them yourself, run:'',
                   Warn ''audit'' [],
                   Warn ''audit'' (''npm install '' @ join '' '' (major plan)),
                   Warn ''audit'' []]
                else []);
          l2 = (if review plan \<noteq> [] then
                  [Warn ''audit'' ''some vulnerabilities require manual review'',
                   Warn ''audit'' ''run `npm audit` to view the full report'']
                else [])
      in if update plan \<noteq> [] \<or> install plan \<noteq> [] then
           (l1 @ l2 @
              [Notice ''audit''
                 [S ''installing'',
                  N (int (length (install plan)) + int (length (update plan))),
                  S ''updated packages with patched vulnerabilities'']],
            Some \<lparr>where_dir = npm_prefix, dryrun = dry_run, args = install plan,
                  opts_deepArgs = map (split CHR ''>'') (update plan)\<rparr>)
         else (l1 @ l2, None))"

type_synonym 'a process_step = "'a \<Rightarrow> process \<Rightarrow> (error + unit) \<times> process"

text \<open>
  The \<open>.then\<close> after the catch, on the report received. \<open>run\<close> stands for
  \<open>new Auditor(...).run\<close> and \<open>printFullReport\<close> for \<open>audit.printFullReport\<close>; both live
  outside lib/audit.js and are parameters.
\<close>

definition then_stage ::
  "auditor_args process_step \<Rightarrow> audit_result process_step \<Rightarrow> string \<Rightarrow> bool \<Rightarrow> string list \<Rightarrow>
     audit_result process_step" where
  "then_stage run printFullReport npm_prefix dry_run argv auditResult p =
     (if (case argv of [] \<Rightarrow> False | a # _ \<Rightarrow> a = ''fix'') then
        (let plan = classify (case actions auditResult of None \<Rightarrow> [] | Some acts \<Rightarrow> acts);
             st = fix_stage npm_prefix dry_run plan;
             p' = p\<lparr>log := log p @ fst st\<rparr>
         in case snd st of None \<Rightarrow> (Inr (), p') | Some c \<Rightarrow> run c p')
      else
        (let v = metadata_vulnerabilities auditResult;
             vulns = low v + moderate v + high v + critical v;
             p' = (if vulns > 0 then p\<lparr>exitCode := Some 1\<rparr> else p)
         in printFullReport auditResult p'))"

text \<open>The chain from the settled report request to the callback of \<open>auditCmd\<close>.\<close>

definition auditCmd_tail ::
  "auditor_args process_step \<Rightarrow> audit_result process_step \<Rightarrow> string \<Rightarrow> string \<Rightarrow> bool \<Rightarrow>
     string list \<Rightarrow> error + audit_result \<Rightarrow> process \<Rightarrow> (error + unit) \<times> process" where
  "auditCmd_tail run printFullReport registry npm_prefix dry_run argv submitted p =
     (case catch_stage registry submitted of
        Inl err \<Rightarrow> (Inl err, p)
      | Inr auditResult \<Rightarrow> then_stage run printFullReport npm_prefix dry_run argv auditResult p)"

section \<open>Concrete inputs\<close>

text \<open>
  A small tree: the root \<open>app\<close> (reference 0) requires \<open>a\<close> and \<open>b\<close>, and \<open>a\<close>
  requires \<open>c\<close>; every package is at 1.0.0.
\<close>

definition pkg :: "string \<Rightarrow> ref list \<Rightarrow> node" where
  "pkg nm rs =
     \<lparr>name = nm, version = Some ''1.0.0'', from' = Some (nm @ ''@^1.0.0''),
      resolved = Some (''https://registry.npmjs.org/'' @ nm @ ''/-/'' @ nm @ ''-1.0.0.tgz''),
      requires = Some rs, integrity = Some (''sha512-'' @ nm)\<rparr>"

definition example_store :: store where
  "example_store =
     [0 \<mapsto> pkg ''app'' [1, 2], 1 \<mapsto> pkg ''a'' [3], 2 \<mapsto> pkg ''b'' [], 3 \<mapsto> pkg ''c'' []]"

definition example_installer :: "string list list \<Rightarrow> installer" where
  "example_installer paths =
     \<lparr>heap = example_store, idealTree = 0, shrinkwrap = True, deepArgs = paths\<rparr>"

text \<open>The example installer before any project script has run.\<close>

definition example_world :: world where
  "example_world = \<lparr>installer_of = example_installer [[''a@2.0.0'']], executed = []\<rparr>"

text \<open>An external step of the installer that succeeds and changes nothing.\<close>

definition succeed :: installer_step where
  "succeed s = (Inr (), s)"

text \<open>The action of the specification's end-to-end scenario.\<close>

definition lodash_action :: remediation_action where
  "lodash_action =
     \<lparr>module = ''lodash'', target = ''4.17.21'', action = ''update'', isMajor = False,
      resolves = [\<lparr>path = ''app>lodash''\<rparr>]\<rparr>"

definition review_action :: remediation_action where
  "review_action =
     \<lparr>module = ''tar'', target = ''4.4.2'', action = ''review'', isMajor = False,
      resolves = [\<lparr>path = ''app>tar''\<rparr>]\<rparr>"

definition major_install_action :: remediation_action where
  "major_install_action =
     \<lparr>module = ''lodash'', target = ''5.0.0'', action = ''install'', isMajor = True,
      resolves = [\<lparr>path = ''lodash''\<rparr>]\<rparr>"

definition update_c_action :: remediation_action where
  "update_c_action =
     \<lparr>module = ''c'', target = ''2.0.0'', action = ''update'', isMajor = False,
      resolves = [\<lparr>path = ''a>b>c>d''\<rparr>]\<rparr>"

definition update_absent_action :: remediation_action where
  "update_absent_action =
     \<lparr>module = ''c'', target = ''1.0.0'', action = ''update'', isMajor = False,
      resolves = [\<lparr>path = ''a>b''\<rparr>]\<rparr>"

text \<open>An external step of the process (the installer's run, the report printer) that succeeds.\<close>

definition done_step :: "'a process_step" where
  "done_step x p = (Inr (), p)"

definition fresh_process :: process where
  "fresh_process = \<lparr>exitCode = None, log = []\<rparr>"

text \<open>Errors a report request can end with, and two reports.\<close>

definition not_found_error :: error where
  "not_found_error = Error ''404 Not Found'' (Some ''E404'') (Some 404) None"

definition unavailable_error :: error where
  "unavailable_error = Error ''503 Service Unavailable'' (Some ''E503'') (Some 503) None"

definition refused_error :: error where
  "refused_error = Error ''connect ECONNREFUSED'' (Some ''ECONNREFUSED'') None None"

definition forbidden_error :: error where
  "forbidden_error = Error ''403 Forbidden'' (Some ''E403'') (Some 403) None"

definition report_with :: "vuln_counts \<Rightarrow> audit_result" where
  "report_with v = \<lparr>actions = None, metadata_vulnerabilities = v\<rparr>"

definition one_moderate :: vuln_counts where
  "one_moderate = \<lparr>low = 0, moderate = 1, high = 0, critical = 0\<rparr>"

definition no_vulnerabilities :: vuln_counts where
  "no_vulnerabilities = \<lparr>low = 0, moderate = 0, high = 0, critical = 0\<rparr>"

definition install_action :: remediation_action where
  "install_action =
     \<lparr>module = ''minimist'', target = ''1.2.6'', action = ''install'', isMajor = False,
      resolves = [\<lparr>path = ''minimist''\<rparr>]\<rparr>"

text \<open>
  Modelled from the spec: \<open>npa\<close> is the npm-package-arg library and is not part of
  lib/audit.js. A specifier \<open>name@target\<close> has that name and, as \<open>fetchSpec\<close>, the
  version or range after the \<open>@\<close>; a bare name is a tag specifier, whose \<open>fetchSpec\<close> is
  \<open>latest\<close>. Only the concrete runs below use this instance: the patcher itself takes the
  parser as a parameter.
\<close>

definition npa_registry :: npa where
  "npa_registry raw =
     (let nm = takeWhile (\<lambda>c. c \<noteq> CHR ''@'') raw;
          rest = drop (Suc (length nm)) raw
      in Inr \<lparr>spec_name = Some nm,
               fetchSpec = Some (if rest = [] then ''latest'' else rest)\<rparr>)"

section \<open>Sets kept as lists\<close>

lemma set_set_add: "set (set_add x s) = insert x (set s)"
  by (auto simp: set_add_def)

lemma distinct_set_add: "distinct s \<Longrightarrow> distinct (set_add x s)"
  by (auto simp: set_add_def)

lemma set_fold_set_add: "set (fold (\<lambda>v u. set_add (f v) u) vs s) = f ` set vs \<union> set s"
  by (induction vs arbitrary: s) (auto simp: set_set_add)

lemma distinct_fold_set_add: "distinct s \<Longrightarrow> distinct (fold (\<lambda>v u. set_add (f v) u) vs s)"
  by (induction vs arbitrary: s) (auto simp: distinct_set_add)

lemma fst_set_add_obj: "fst ` set (set_add_obj x s) = insert (fst x) (fst ` set s)"
  by (auto simp: set_add_obj_def)

lemma distinct_set_add_obj: "distinct (map fst s) \<Longrightarrow> distinct (map fst (set_add_obj x s))"
  by (auto simp: set_add_obj_def)

section \<open>What one action adds to each bucket\<close>

lemma major_classify_action:
  "set (major (classify_action acc ra)) =
     set (major acc) \<union>
       (if isMajor (snd ra) then {module (snd ra) @ ''@'' @ target (snd ra)} else {})"
  by (simp add: classify_action_def Let_def set_set_add)

lemma install_classify_action:
  "set (install (classify_action acc ra)) =
     set (install acc) \<union>
       (if \<not> isMajor (snd ra) \<and> action (snd ra) = ''install''
        then {module (snd ra) @ ''@'' @ target (snd ra)} else {})"
  by (simp add: classify_action_def Let_def set_set_add)

lemma update_classify_action:
  "set (update (classify_action acc ra)) =
     set (update acc) \<union>
       (if \<not> isMajor (snd ra) \<and> action (snd ra) = ''update''
        then update_entry (module (snd ra)) (target (snd ra)) ` set (resolves (snd ra))
        else {})"
  by (auto simp add: classify_action_def Let_def set_fold_set_add)

lemma review_classify_action:
  "fst ` set (review (classify_action acc ra)) =
     fst ` set (review acc) \<union>
       (if \<not> isMajor (snd ra) \<and> action (snd ra) = ''review'' then {fst ra} else {})"
  by (auto simp add: classify_action_def Let_def fst_set_add_obj)

lemma distinct_classify_action:
  "distinct (install acc) \<and> distinct (update acc) \<and> distinct (major acc) \<and>
     distinct (map fst (review acc))
   \<Longrightarrow> distinct (install (classify_action acc ra)) \<and>
       distinct (update (classify_action acc ra)) \<and>
       distinct (major (classify_action acc ra)) \<and>
       distinct (map fst (review (classify_action acc ra)))"
  by (simp add: classify_action_def Let_def distinct_set_add distinct_fold_set_add
        distinct_set_add_obj)

section \<open>The buckets after the whole reduction\<close>

lemma major_foldl:
  "set (major (foldl classify_action acc acts)) =
     set (major acc) \<union> {module a @ ''@'' @ target a | r a. (r, a) \<in> set acts \<and> isMajor a}"
proof (induction acts arbitrary: acc)
  case Nil
  then show ?case by simp
next
  case (Cons ra acts)
  show ?case
    unfolding foldl_Cons Cons.IH major_classify_action
    by (cases ra) auto
qed

lemma install_foldl:
  "set (install (foldl classify_action acc acts)) =
     set (install acc) \<union>
       {module a @ ''@'' @ target a | r a.
          (r, a) \<in> set acts \<and> \<not> isMajor a \<and> action a = ''install''}"
proof (induction acts arbitrary: acc)
  case Nil
  then show ?case by simp
next
  case (Cons ra acts)
  show ?case
    unfolding foldl_Cons Cons.IH install_classify_action
    by (cases ra) auto
qed

lemma update_foldl:
  "set (update (foldl classify_action acc acts)) =
     set (update acc) \<union>
       {update_entry (module a) (target a) v | r a v.
          (r, a) \<in> set acts \<and> \<not> isMajor a \<and> action a = ''update'' \<and> v \<in> set (resolves a)}"
proof (induction acts arbitrary: acc)
  case Nil
  then show ?case by simp
next
  case (Cons ra acts)
  show ?case
    unfolding foldl_Cons Cons.IH update_classify_action
    by (cases ra) auto
qed

lemma review_foldl:
  "fst ` set (review (foldl classify_action acc acts)) =
     fst ` set (review acc) \<union>
       {r | r a. (r, a) \<in> set acts \<and> \<not> isMajor a \<and> action a = ''review''}"
proof (induction acts arbitrary: acc)
  case Nil
  then show ?case by simp
next
  case (Cons ra acts)
  show ?case
    unfolding foldl_Cons Cons.IH review_classify_action
    by (cases ra) auto
qed

lemma distinct_foldl:
  "distinct (install acc) \<and> distinct (update acc) \<and> distinct (major acc) \<and>
     distinct (map fst (review acc))
   \<Longrightarrow> distinct (install (foldl classify_action acc acts)) \<and>
       distinct (update (foldl classify_action acc acts)) \<and>
       distinct (major (foldl classify_action acc acts)) \<and>
       distinct (map fst (review (foldl classify_action acc acts)))"
proof (induction acts arbitrary: acc)
  case Nil
  then show ?case by simp
next
  case (Cons ra acts)
  from distinct_classify_action [OF Cons.prems, of ra] Cons.IH
  show ?case unfolding foldl_Cons by blast
qed

section \<open>indexOf and slice\<close>

lemma indexOf_notin: "x \<notin> set xs \<Longrightarrow> indexOf xs x = - 1"
  by (induction xs) (auto simp: Let_def)

lemma indexOf_in: "x \<in> set xs \<Longrightarrow> indexOf xs x = int (length (takeWhile (\<lambda>y. y \<noteq> x) xs))"
  by (induction xs) (auto simp: Let_def indexOf_notin)

lemma slice_prefix: "0 \<le> k \<Longrightarrow> slice xs 0 k = take (nat k) xs"
  by (auto simp: slice_def Let_def min_def)

lemma slice_butlast: "slice xs 0 (- 1) = butlast xs"
  by (auto simp: slice_def Let_def butlast_conv_take max_def nat_diff_distrib')

lemma update_entry_in:
  "nm \<in> set (split CHR ''>'' (path v)) \<Longrightarrow>
     update_entry nm ver v =
       join ''>'' (takeWhile (\<lambda>s. s \<noteq> nm) (split CHR ''>'' (path v)) @ [nm @ ''@'' @ ver])"
  by (simp add: update_entry_def Let_def indexOf_in slice_prefix takeWhile_eq_take [symmetric])

lemma update_entry_notin:
  "nm \<notin> set (split CHR ''>'' (path v)) \<Longrightarrow>
     update_entry nm ver v =
       join ''>'' (butlast (split CHR ''>'' (path v)) @ [nm @ ''@'' @ ver])"
  by (simp add: update_entry_def Let_def indexOf_notin slice_butlast)

section \<open>Classification: the claims\<close>

text \<open>
  C4. An action whose \<open>isMajor\<close> is true adds \<open>module@target\<close> to \<open>major\<close> and leaves
  \<open>install\<close>, \<open>update\<close> and \<open>review\<close> as they were, whatever its \<open>action\<close> field says;
  after the whole reduction the string is a member of \<open>major\<close>.
\<close>

theorem major_precedence:
  assumes "isMajor a"
  shows "classify_action acc (r, a) =
           acc\<lparr>major := set_add (module a @ ''@'' @ target a) (major acc)\<rparr>
         \<and> install (classify_action acc (r, a)) = install acc
         \<and> update (classify_action acc (r, a)) = update acc
         \<and> review (classify_action acc (r, a)) = review acc
         \<and> module a @ ''@'' @ target a \<in> set (major (classify_action acc (r, a)))
         \<and> ((r, a) \<in> set acts \<longrightarrow> module a @ ''@'' @ target a \<in> set (major (classify acts)))"
proof -
  have step: "classify_action acc (r, a) =
      acc\<lparr>major := set_add (module a @ ''@'' @ target a) (major acc)\<rparr>"
    using assms by (simp add: classify_action_def)
  have whole: "(r, a) \<in> set acts \<longrightarrow> module a @ ''@'' @ target a \<in> set (major (classify acts))"
    using assms unfolding classify_def major_foldl by blast
  show ?thesis
    unfolding step using whole by (simp add: set_set_add)
qed

theorem major_precedence_witness:
  "isMajor major_install_action
   \<and> action major_install_action = ''install''
   \<and> classify [(0, major_install_action)] =
       \<lparr>install = [], update = [], major = [''lodash@5.0.0''], review = []\<rparr>"
  using major_precedence [of major_install_action empty_plan 0 "[(0, major_install_action)]"]
  by (simp add: major_install_action_def classify_def empty_plan_def set_add_def)

text \<open>
  C5. For an action that is not major and whose \<open>action\<close> is \<open>update\<close>, and a
  vulnerability of its \<open>resolves\<close> whose path has \<open>module\<close> among its segments, the entry
  is the segments before the first \<open>module\<close>, then \<open>module@target\<close>, joined with \<open>>\<close>, and
  it is a member of \<open>update\<close>; path \<open>a>b>c>d\<close> with module \<open>c\<close> and target \<open>2.0.0\<close> gives
  \<open>a>b>c@2.0.0\<close>.
\<close>

theorem update_path_truncation:
  assumes "\<not> isMajor a" and "action a = ''update''" and "v \<in> set (resolves a)"
    and "module a \<in> set (split CHR ''>'' (path v))"
  shows "update_entry (module a) (target a) v =
           join ''>'' (takeWhile (\<lambda>s. s \<noteq> module a) (split CHR ''>'' (path v))
                        @ [module a @ ''@'' @ target a])
         \<and> update_entry (module a) (target a) v \<in> set (update (classify_action acc (r, a)))
         \<and> ((r, a) \<in> set acts \<longrightarrow>
              update_entry (module a) (target a) v \<in> set (update (classify acts)))
         \<and> update_entry ''c'' ''2.0.0'' \<lparr>path = ''a>b>c>d''\<rparr> = ''a>b>c@2.0.0''"
proof -
  have entry: "update_entry (module a) (target a) v =
      join ''>'' (takeWhile (\<lambda>s. s \<noteq> module a) (split CHR ''>'' (path v))
                   @ [module a @ ''@'' @ target a])"
    using assms(4) by (rule update_entry_in)
  have step: "update_entry (module a) (target a) v \<in> set (update (classify_action acc (r, a)))"
    using assms(1-3) by (simp add: update_classify_action)
  have whole: "(r, a) \<in> set acts \<longrightarrow>
      update_entry (module a) (target a) v \<in> set (update (classify acts))"
    using assms(1-3) unfolding classify_def update_foldl by blast
  have example: "update_entry ''c'' ''2.0.0'' \<lparr>path = ''a>b>c>d''\<rparr> = ''a>b>c@2.0.0''"
    by (simp add: update_entry_def slice_def)
  from entry step whole example show ?thesis by blast
qed

theorem update_path_truncation_witness:
  "\<not> isMajor update_c_action \<and> action update_c_action = ''update''
   \<and> \<lparr>path = ''a>b>c>d''\<rparr> \<in> set (resolves update_c_action)
   \<and> module update_c_action \<in> set (split CHR ''>'' ''a>b>c>d'')
   \<and> ''a>b>c@2.0.0'' \<in> set (update (classify [(0, update_c_action)]))"
  using update_path_truncation [of update_c_action "\<lparr>path = ''a>b>c>d''\<rparr>" empty_plan 0
      "[(0, update_c_action)]"]
  by (auto simp: update_c_action_def)

text \<open>
  C7. For an action that is not major and whose \<open>action\<close> is \<open>update\<close>, and a
  vulnerability whose path does not have \<open>module\<close> among its segments, \<open>indexOf\<close> is
  \<open>-1\<close>, the slice keeps every segment but the last, and the entry added to \<open>update\<close> is
  the path with its last segment replaced by \<open>module@target\<close>; path \<open>a>b\<close> with module
  \<open>c\<close> and target \<open>1.0.0\<close> gives \<open>a>c@1.0.0\<close>. Classification is a total function: it has
  no failing branch.
\<close>

theorem update_path_without_module:
  assumes "\<not> isMajor a" and "action a = ''update''" and "v \<in> set (resolves a)"
    and "module a \<notin> set (split CHR ''>'' (path v))"
  shows "indexOf (split CHR ''>'' (path v)) (module a) = - 1
         \<and> slice (split CHR ''>'' (path v)) 0 (- 1) = butlast (split CHR ''>'' (path v))
         \<and> update_entry (module a) (target a) v =
             join ''>'' (butlast (split CHR ''>'' (path v)) @ [module a @ ''@'' @ target a])
         \<and> update_entry (module a) (target a) v \<in> set (update (classify_action acc (r, a)))
         \<and> ((r, a) \<in> set acts \<longrightarrow>
              update_entry (module a) (target a) v \<in> set (update (classify acts)))
         \<and> update_entry ''c'' ''1.0.0'' \<lparr>path = ''a>b''\<rparr> = ''a>c@1.0.0''"
proof -
  have idx: "indexOf (split CHR ''>'' (path v)) (module a) = - 1"
    using assms(4) by (rule indexOf_notin)
  have entry: "update_entry (module a) (target a) v =
      join ''>'' (butlast (split CHR ''>'' (path v)) @ [module a @ ''@'' @ target a])"
    using assms(4) by (rule update_entry_notin)
  have step: "update_entry (module a) (target a) v \<in> set (update (classify_action acc (r, a)))"
    using assms(1-3) by (simp add: update_classify_action)
  have whole: "(r, a) \<in> set acts \<longrightarrow>
      update_entry (module a) (target a) v \<in> set (update (classify acts))"
    using assms(1-3) unfolding classify_def update_foldl by blast
  have example: "update_entry ''c'' ''1.0.0'' \<lparr>path = ''a>b''\<rparr> = ''a>c@1.0.0''"
    by (simp add: update_entry_def slice_def)
  from idx slice_butlast entry step whole example show ?thesis by blast
qed

theorem update_path_without_module_witness:
  "\<not> isMajor update_absent_action \<and> action update_absent_action = ''update''
   \<and> \<lparr>path = ''a>b''\<rparr> \<in> set (resolves update_absent_action)
   \<and> module update_absent_action \<notin> set (split CHR ''>'' ''a>b'')
   \<and> ''a>c@1.0.0'' \<in> set (update (classify [(0, update_absent_action)]))"
  using update_path_without_module [of update_absent_action "\<lparr>path = ''a>b''\<rparr>" empty_plan 0
      "[(0, update_absent_action)]"]
  by (auto simp: update_absent_action_def)

text \<open>
  C6, as the code has it. The \<open>install\<close>, \<open>update\<close> and \<open>major\<close> buckets hold strings and
  deduplicate by value: each holds every string contributed exactly once, however many
  actions or vulnerabilities produced it. The \<open>review\<close> bucket holds action objects and
  deduplicates by reference: it holds one entry for every review action object of the
  input, also when two of them have the same contents.
\<close>

theorem buckets_deduplicated:
  "distinct (install (classify acts))
   \<and> set (install (classify acts)) =
       {module a @ ''@'' @ target a | r a.
          (r, a) \<in> set acts \<and> \<not> isMajor a \<and> action a = ''install''}
   \<and> distinct (major (classify acts))
   \<and> set (major (classify acts)) =
       {module a @ ''@'' @ target a | r a. (r, a) \<in> set acts \<and> isMajor a}
   \<and> distinct (update (classify acts))
   \<and> set (update (classify acts)) =
       {update_entry (module a) (target a) v | r a v.
          (r, a) \<in> set acts \<and> \<not> isMajor a \<and> action a = ''update'' \<and> v \<in> set (resolves a)}
   \<and> distinct (map fst (review (classify acts)))
   \<and> fst ` set (review (classify acts)) =
       {r | r a. (r, a) \<in> set acts \<and> \<not> isMajor a \<and> action a = ''review''}"
proof -
  have d: "distinct (install (classify acts)) \<and> distinct (update (classify acts)) \<and>
      distinct (major (classify acts)) \<and> distinct (map fst (review (classify acts)))"
    unfolding classify_def by (rule distinct_foldl) (simp add: empty_plan_def)
  have i: "set (install (classify acts)) =
      {module a @ ''@'' @ target a | r a.
         (r, a) \<in> set acts \<and> \<not> isMajor a \<and> action a = ''install''}"
    unfolding classify_def install_foldl by (simp add: empty_plan_def)
  have m: "set (major (classify acts)) =
      {module a @ ''@'' @ target a | r a. (r, a) \<in> set acts \<and> isMajor a}"
    unfolding classify_def major_foldl by (simp add: empty_plan_def)
  have u: "set (update (classify acts)) =
      {update_entry (module a) (target a) v | r a v.
         (r, a) \<in> set acts \<and> \<not> isMajor a \<and> action a = ''update'' \<and> v \<in> set (resolves a)}"
    unfolding classify_def update_foldl by (simp add: empty_plan_def)
  have r: "fst ` set (review (classify acts)) =
      {r | r a. (r, a) \<in> set acts \<and> \<not> isMajor a \<and> action a = ''review''}"
    unfolding classify_def review_foldl by (simp add: empty_plan_def)
  from d i m u r show ?thesis by blast
qed

theorem buckets_deduplicated_witness:
  "distinct (install (classify [(0, install_action), (1, install_action)]))
   \<and> install (classify [(0, install_action), (1, install_action)]) = [''minimist@1.2.6'']
   \<and> distinct (map fst (review (classify [(0, install_action), (1, install_action)])))"
proof -
  have e: "install (classify [(0, install_action), (1, install_action)]) = [''minimist@1.2.6'']"
    by (simp add: classify_def classify_action_def empty_plan_def install_action_def
          set_add_def Let_def)
  from buckets_deduplicated [of "[(0, install_action), (1, install_action)]"] e
  show ?thesis by blast
qed

text \<open>
  Against C6 as stated: two review actions with the same contents, at positions 0 and 1 of
  the array, are two objects, and the \<open>review\<close> bucket keeps both.
\<close>

theorem review_not_deduplicated_by_value:
  "review (classify [(0, review_action), (1, review_action)]) =
     [(0, review_action), (1, review_action)]"
  by (simp add: classify_def classify_action_def empty_plan_def review_action_def
        set_add_obj_def Let_def)

section \<open>Fix mode and report mode: the claims\<close>

text \<open>
  C2, as the code has it. In fix mode, when the \<open>install\<close> set or the \<open>update\<close> set is not
  empty, the Auditor is constructed with the members of \<open>install\<close> alone as its install
  arguments and with every member of \<open>update\<close> split on \<open>>\<close> as \<open>deepArgs\<close>, it is run, and
  the last log line written before that is the notice with \<open>install.size + update.size\<close>.
\<close>

theorem fix_mode_invokes_auditor:
  assumes "install (classify acts) \<noteq> [] \<or> update (classify acts) \<noteq> []"
  shows "then_stage run printFullReport npm_prefix dry_run (''fix'' # rest)
             \<lparr>actions = Some acts, metadata_vulnerabilities = v\<rparr> p =
           run \<lparr>where_dir = npm_prefix, dryrun = dry_run, args = install (classify acts),
                 opts_deepArgs = map (split CHR ''>'') (update (classify acts))\<rparr>
               (p\<lparr>log := log p @ fst (fix_stage npm_prefix dry_run (classify acts))\<rparr>)
         \<and> last (fst (fix_stage npm_prefix dry_run (classify acts))) =
             Notice ''audit''
               [S ''installing'',
                N (int (length (install (classify acts))) + int (length (update (classify acts)))),
                S ''updated packages with patched vulnerabilities'']"
  using assms by (auto simp: then_stage_def fix_stage_def Let_def)

theorem fix_mode_invokes_auditor_witness:
  "update (classify [(0, lodash_action)]) \<noteq> []
   \<and> then_stage (\<lambda>c p. (Inl (Error (join '' '' (args c)) None None None), p)) done_step
         ''/app'' False [''fix''] \<lparr>actions = Some [(0, lodash_action)],
           metadata_vulnerabilities = one_moderate\<rparr> fresh_process =
       (Inl (Error [] None None None),
        \<lparr>exitCode = None,
          log = [Notice ''audit'' [S ''installing'', N 1,
                   S ''updated packages with patched vulnerabilities'']]\<rparr>)"
  using fix_mode_invokes_auditor [of "[(0, lodash_action)]"
      "\<lambda>c p. (Inl (Error (join '' '' (args c)) None None None), p)" done_step "''/app''" False
      "[]" one_moderate fresh_process]
  by (simp add: classify_def classify_action_def empty_plan_def lodash_action_def
        update_entry_def slice_def set_add_def Let_def fix_stage_def fresh_process_def)

text \<open>
  Against C2 as stated: for the one lodash action the \<open>install\<close> set is empty and the
  \<open>update\<close> set holds \<open>app>lodash@4.17.21\<close>, so the Auditor is constructed with no install
  argument and with the one deep path \<open>app\<close>, \<open>lodash@4.17.21\<close>.
\<close>

theorem lodash_install_args_empty:
  "classify [(0, lodash_action)] =
     \<lparr>install = [], update = [''app>lodash@4.17.21''], major = [], review = []\<rparr>
   \<and> snd (fix_stage ''/app'' False (classify [(0, lodash_action)])) =
       Some \<lparr>where_dir = ''/app'', dryrun = False, args = [],
             opts_deepArgs = [[''app'', ''lodash@4.17.21'']]\<rparr>"
  by (simp add: fix_stage_def classify_def classify_action_def empty_plan_def lodash_action_def
        update_entry_def slice_def set_add_def Let_def)

text \<open>
  C8. When the report request is rejected with an error whose status code is 404, or 500
  or more, \<open>auditCmd\<close> ends with a new error of code \<open>ENOAUDIT\<close> whose message names the
  configured registry and whose \<open>wrapped\<close> is the error caught; any other error ends
  \<open>auditCmd\<close> as it is. Nothing after the catch runs in either case.
\<close>

theorem report_service_unavailable:
  "((statusCode_of err = Some 404 \<or> (\<exists>c. statusCode_of err = Some c \<and> c \<ge> 500)) \<longrightarrow>
      auditCmd_tail run printFullReport registry npm_prefix dry_run argv (Inl err) p =
        (Inl (Error (''Your configured registry ('' @ registry
                       @ '') does not support audit requests.'')
                (Some ''ENOAUDIT'') None (Some err)), p))
   \<and> (\<not> (statusCode_of err = Some 404 \<or> (\<exists>c. statusCode_of err = Some c \<and> c \<ge> 500)) \<longrightarrow>
      auditCmd_tail run printFullReport registry npm_prefix dry_run argv (Inl err) p =
        (Inl err, p))"
  by (auto simp: auditCmd_tail_def catch_stage_def catch_handler_def split: option.splits)

theorem report_service_unavailable_witness:
  "auditCmd_tail done_step done_step ''https://r.example/'' ''/app'' False [] (Inl not_found_error)
       fresh_process =
     (Inl (Error ''Your configured registry (https://r.example/) does not support audit requests.''
             (Some ''ENOAUDIT'') None (Some not_found_error)), fresh_process)
   \<and> fst (auditCmd_tail done_step done_step ''https://r.example/'' ''/app'' False []
            (Inl unavailable_error) fresh_process) =
       Inl (Error ''Your configured registry (https://r.example/) does not support audit requests.''
              (Some ''ENOAUDIT'') None (Some unavailable_error))
   \<and> fst (auditCmd_tail done_step done_step ''https://r.example/'' ''/app'' False []
            (Inl refused_error) fresh_process) = Inl refused_error
   \<and> fst (auditCmd_tail done_step done_step ''https://r.example/'' ''/app'' False []
            (Inl forbidden_error) fresh_process) = Inl forbidden_error"
  using report_service_unavailable [of not_found_error done_step done_step "''https://r.example/''"
      "''/app''" False "[]" fresh_process]
    report_service_unavailable [of unavailable_error done_step done_step "''https://r.example/''"
      "''/app''" False "[]" fresh_process]
    report_service_unavailable [of refused_error done_step done_step "''https://r.example/''"
      "''/app''" False "[]" fresh_process]
    report_service_unavailable [of forbidden_error done_step done_step "''https://r.example/''"
      "''/app''" False "[]" fresh_process]
  by (simp add: not_found_error_def unavailable_error_def refused_error_def forbidden_error_def)

text \<open>
  C9. In report mode (the first argument is not \<open>fix\<close>), when the sum of the low,
  moderate, high and critical counts is greater than zero, \<open>process.exitCode\<close> is set to 1
  before the report is printed; when the four counts are zero, the process is handed to
  the printer as it was, its exit code untouched.
\<close>

theorem report_mode_exit_code:
  assumes "\<And>rest. argv \<noteq> ''fix'' # rest"
  shows "(low v + moderate v + high v + critical v > 0 \<longrightarrow>
            then_stage run printFullReport npm_prefix dry_run argv
                \<lparr>actions = acts, metadata_vulnerabilities = v\<rparr> p =
              printFullReport \<lparr>actions = acts, metadata_vulnerabilities = v\<rparr>
                (p\<lparr>exitCode := Some 1\<rparr>))
         \<and> (low v = 0 \<and> moderate v = 0 \<and> high v = 0 \<and> critical v = 0 \<longrightarrow>
            then_stage run printFullReport npm_prefix dry_run argv
                \<lparr>actions = acts, metadata_vulnerabilities = v\<rparr> p =
              printFullReport \<lparr>actions = acts, metadata_vulnerabilities = v\<rparr> p)"
  using assms by (cases argv) (auto simp: then_stage_def Let_def)

theorem report_mode_exit_code_witness:
  "exitCode (snd (then_stage done_step done_step ''/app'' False [] (report_with one_moderate)
       fresh_process)) = Some 1
   \<and> exitCode (snd (then_stage done_step done_step ''/app'' False []
       (report_with no_vulnerabilities) fresh_process)) = None"
  using report_mode_exit_code [of "[]" one_moderate done_step done_step "''/app''" False None
      fresh_process]
    report_mode_exit_code [of "[]" no_vulnerabilities done_step done_step "''/app''" False None
      fresh_process]
  by (simp add: report_with_def one_moderate_def no_vulnerabilities_def done_step_def
        fresh_process_def)

section \<open>The Auditor: the claims\<close>

text \<open>
  C10. Whatever the hooks of the base installer class would do, the Auditor over it
  suppresses both: its pre-install and its post-install hook call the callback at once,
  with no error and on the state as it stands, and a run through the two hooks ends
  without error, the installer untouched and no project script executed. The hooks of the
  general installer, run the same way, execute their scripts.
\<close>

theorem no_top_level_lifecycles:
  "preinstall_hook (Auditor base) cb w = cb None w
   \<and> postinstall_hook (Auditor base) cb w = cb None w
   \<and> run_top_level_lifecycles (Auditor base') w = (None, w)
   \<and> executed (snd (run_top_level_lifecycles (Auditor (Installer pre post)) w)) = executed w
   \<and> executed (snd (run_top_level_lifecycles (Installer pre post) w)) =
       executed w @ pre @ post"
proof -
  have pre_hook: "preinstall_hook (Auditor b) k v = k None v" for b :: "'r lifecycle_hooks" and k v
    by (simp add: Auditor_def runPreinstallTopLevelLifecycles_def)
  have post_hook: "postinstall_hook (Auditor b) k v = k None v" for b :: "'r lifecycle_hooks" and k v
    by (simp add: Auditor_def runPostinstallTopLevelLifecycles_def)
  have run: "run_top_level_lifecycles (Auditor b) w = (None, w)" for b
    unfolding run_top_level_lifecycles_def pre_hook post_hook by simp
  have general: "executed (snd (run_top_level_lifecycles (Installer pre post) w)) =
      executed w @ pre @ post"
    by (simp add: run_top_level_lifecycles_def Installer_def script_hook_def)
  show ?thesis
    using pre_hook [of base cb w] post_hook [of base cb w] run [of base']
      run [of "Installer pre post"] general
    by simp
qed

theorem no_top_level_lifecycles_witness:
  "run_top_level_lifecycles (Auditor (Installer [''preinstall''] [''install'', ''postinstall'']))
       example_world = (None, example_world)
   \<and> executed (snd (run_top_level_lifecycles
         (Installer [''preinstall''] [''install'', ''postinstall'']) example_world)) =
       [''preinstall'', ''install'', ''postinstall'']"
  using no_top_level_lifecycles [of "Installer [''preinstall''] [''install'', ''postinstall'']"
      "\<lambda>er w. (er, w)" example_world
      "Installer [''preinstall''] [''install'', ''postinstall'']"
      "[''preinstall'']" "[''install'', ''postinstall'']"]
  by (simp add: example_world_def)

section \<open>The patcher: where it writes\<close>

lemma find_name_Some:
  "find_name h rs nm = Inr (Some t) \<Longrightarrow> t \<in> set rs \<and> (\<exists>n. h t = Some n \<and> Some (name n) = nm)"
  by (induction rs) (auto split: option.splits if_splits)

lemma requires_find_Some:
  "requires_find h acc nm = Inr (Some t) \<Longrightarrow> \<exists>n. h t = Some n \<and> Some (name n) = nm"
  by (auto simp: requires_find_def split: option.splits dest: find_name_Some)

text \<open>At an index other than \<open>this._deepArgs.length - 1\<close> the reducer only looks the segment up.\<close>

lemma reducer_other_index:
  "int i \<noteq> int len - 1 \<Longrightarrow>
     reducer npa len h acc child i = (requires_find h acc (Some child), h)"
  by (simp add: reducer_def)

text \<open>At that index it fails without writing, or rewrites the one node it found.\<close>

lemma reducer_that_index:
  assumes "int i = int len - 1"
  shows "(\<exists>e. reducer npa len h acc child i = (Inl e, h))
         \<or> (\<exists>t n sp. npa child = Inr sp \<and> h t = Some n \<and> Some (name n) = spec_name sp
               \<and> snd (reducer npa len h acc child i) = h(t \<mapsto> patch_node sp n))"
proof (cases "npa child")
  case (Inl e)
  with assms show ?thesis by (simp add: reducer_def)
next
  case (Inr sp)
  show ?thesis
  proof (cases "requires_find h acc (spec_name sp)")
    case (Inl e)
    with Inr assms show ?thesis by (simp add: reducer_def)
  next
    case found: (Inr r)
    show ?thesis
    proof (cases r)
      case None
      with found Inr assms show ?thesis by (simp add: reducer_def)
    next
      case (Some t)
      with found obtain n where n: "h t = Some n" "Some (name n) = spec_name sp"
        using requires_find_Some by blast
      with Some found Inr assms
      have "snd (reducer npa len h acc child i) = h(t \<mapsto> patch_node sp n)"
        by (simp add: reducer_def Let_def)
      with Inr n show ?thesis by blast
    qed
  qed
qed

text \<open>Once the accumulator is \<open>undefined\<close>, every further segment fails and nothing is written.\<close>

lemma reducer_undefined:
  "\<exists>e. reducer npa len h None child i = (Inl e, h)"
  by (auto simp: reducer_def requires_find_def split: sum.splits)

lemma reduce_arg_undefined: "snd (reduce_arg npa len h None arg i) = h"
proof (cases arg)
  case Nil
  then show ?thesis by simp
next
  case (Cons child rest)
  from reducer_undefined [of npa len h child i] obtain e
    where "reducer npa len h None child i = (Inl e, h)" ..
  with Cons show ?thesis by simp
qed

lemma reduce_arg_undefined_fails:
  "arg \<noteq> [] \<Longrightarrow> \<exists>e. fst (reduce_arg npa len h None arg i) = Inl e"
proof (cases arg)
  case Nil
  assume "arg \<noteq> []"
  with Nil show ?thesis by simp
next
  case (Cons child rest)
  from reducer_undefined [of npa len h child i] obtain e
    where "reducer npa len h None child i = (Inl e, h)" ..
  with Cons show ?thesis by simp
qed

text \<open>
  One path rewrites at most one node, and the segment that names it is the one at index
  \<open>this._deepArgs.length - 1\<close> of the path: the number of paths decides it, not the
  length of the path.
\<close>

lemma reduce_arg_store:
  "snd (reduce_arg npa len h acc arg i) = h
   \<or> (\<exists>t n sp. i < len \<and> len - 1 - i < length arg \<and> npa (arg ! (len - 1 - i)) = Inr sp
         \<and> h t = Some n \<and> Some (name n) = spec_name sp
         \<and> snd (reduce_arg npa len h acc arg i) = h(t \<mapsto> patch_node sp n))"
proof (induction arg arbitrary: h acc i)
  case Nil
  then show ?case by simp
next
  case (Cons child rest)
  show ?case
  proof (cases "int i = int len - 1")
    case True
    then have len: "len = Suc i" by simp
    from reducer_that_index [OF True, of npa h acc child]
    show ?thesis
    proof
      assume "\<exists>e. reducer npa len h acc child i = (Inl e, h)"
      then show ?thesis by auto
    next
      assume "\<exists>t n sp. npa child = Inr sp \<and> h t = Some n \<and> Some (name n) = spec_name sp
        \<and> snd (reducer npa len h acc child i) = h(t \<mapsto> patch_node sp n)"
      then obtain t n sp where p: "npa child = Inr sp" "h t = Some n"
        "Some (name n) = spec_name sp"
        "snd (reducer npa len h acc child i) = h(t \<mapsto> patch_node sp n)"
        by blast
      have after: "snd (reduce_arg npa len h' acc' rest (Suc i)) = h'" for h' acc'
        using Cons.IH [of h' acc' "Suc i"] len by simp
      have "snd (reduce_arg npa len h acc (child # rest) i) = h(t \<mapsto> patch_node sp n)"
        using p(4) after
        by (cases "reducer npa len h acc child i") (auto split: sum.splits)
      with p len show ?thesis by auto
    qed
  next
    case False
    then have step: "reducer npa len h acc child i = (requires_find h acc (Some child), h)"
      by (rule reducer_other_index)
    show ?thesis
    proof (cases "requires_find h acc (Some child)")
      case (Inl e)
      with step show ?thesis by simp
    next
      case (Inr acc')
      with step have eq: "reduce_arg npa len h acc (child # rest) i =
          reduce_arg npa len h acc' rest (Suc i)"
        by simp
      from Cons.IH [of h acc' "Suc i"] show ?thesis
      proof
        assume "snd (reduce_arg npa len h acc' rest (Suc i)) = h"
        with eq show ?thesis by simp
      next
        assume "\<exists>t n sp. Suc i < len \<and> len - 1 - Suc i < length rest
          \<and> npa (rest ! (len - 1 - Suc i)) = Inr sp \<and> h t = Some n
          \<and> Some (name n) = spec_name sp
          \<and> snd (reduce_arg npa len h acc' rest (Suc i)) = h(t \<mapsto> patch_node sp n)"
        then obtain t n sp where q: "Suc i < len" "len - 1 - Suc i < length rest"
          "npa (rest ! (len - 1 - Suc i)) = Inr sp" "h t = Some n"
          "Some (name n) = spec_name sp"
          "snd (reduce_arg npa len h acc' rest (Suc i)) = h(t \<mapsto> patch_node sp n)"
          by blast
        from q(1) have idx: "len - 1 - i = Suc (len - 1 - Suc i)" by arith
        from q idx have "i < len \<and> len - 1 - i < length (child # rest)
          \<and> npa ((child # rest) ! (len - 1 - i)) = Inr sp"
          by simp
        with q eq show ?thesis by auto
      qed
    qed
  qed
qed

text \<open>
  A path whose first segment finds no child of the root, neither as it is written nor by
  its specifier's name, leaves the store as it was.
\<close>

lemma first_segment_missing_unmodified:
  assumes "requires_find h (Some root) (Some child) = Inr None"
    and "\<And>sp. npa child = Inr sp \<Longrightarrow> requires_find h (Some root) (spec_name sp) = Inr None"
  shows "snd (reduce_arg npa len h (Some root) (child # rest) 0) = h"
proof (cases "int 0 = int len - 1")
  case True
  show ?thesis
  proof (cases "npa child")
    case (Inl e)
    with True show ?thesis by (simp add: reducer_def)
  next
    case (Inr sp)
    with assms(2) have "requires_find h (Some root) (spec_name sp) = Inr None" by simp
    with Inr True show ?thesis by (simp add: reducer_def)
  qed
next
  case False
  then have "reducer npa len h (Some root) child 0 = (Inr None, h)"
    using assms(1) by (simp add: reducer_def)
  then show ?thesis by (simp add: reduce_arg_undefined)
qed

section \<open>The patcher: runs on the example tree\<close>

text \<open>
  One path of one segment, a dependency of the root: here the index tested is the last
  index of the path, and the node named is rewritten as intended.
\<close>

lemma loadShrinkwrap_one_root_level_path:
  "loadShrinkwrap npa_registry succeed succeed (example_installer [[''a@2.0.0'']]) =
     (Inr (),
      (example_installer [[''a@2.0.0'']])
        \<lparr>heap := example_store(1 \<mapsto>
           \<lparr>name = ''a'', version = Some ''2.0.0'', from' = None, resolved = None,
            requires = None, integrity = None\<rparr>)\<rparr>)"
  by (simp add: loadShrinkwrap_def succeed_def example_installer_def reducer_def
        requires_find_def example_store_def pkg_def npa_registry_def patch_node_def)

text \<open>
  C1, at two inputs where the number of paths is not the length of the path. With the two
  paths \<open>a@2.0.0\<close> and \<open>b@2.0.0\<close>, the index tested is 1 and neither path has a segment
  there: the run succeeds and no node is rewritten, whatever the parser. With the one path
  \<open>a\<close>, \<open>c@2.0.0\<close> the index tested is 0: node \<open>a\<close>, a segment that is not the last, is
  rewritten (to \<open>latest\<close>), node \<open>c\<close> is not, and the run fails at the next segment.
\<close>

theorem loadShrinkwrap_patches_by_path_count:
  "loadShrinkwrap npa succeed succeed (example_installer [[''a@2.0.0''], [''b@2.0.0'']]) =
     (Inr (), example_installer [[''a@2.0.0''], [''b@2.0.0'']])
   \<and> fst (loadShrinkwrap npa_registry succeed succeed (example_installer [[''a'', ''c@2.0.0'']]))
       = Inl TypeError
   \<and> heap (snd (loadShrinkwrap npa_registry succeed succeed
                   (example_installer [[''a'', ''c@2.0.0'']]))) 1 =
       Some \<lparr>name = ''a'', version = Some ''latest'', from' = None, resolved = None,
             requires = None, integrity = None\<rparr>
   \<and> heap (snd (loadShrinkwrap npa_registry succeed succeed
                   (example_installer [[''a'', ''c@2.0.0'']]))) 3 = Some (pkg ''c'' [])"
  by (simp add: loadShrinkwrap_def succeed_def example_installer_def reducer_def
        requires_find_def example_store_def pkg_def npa_registry_def patch_node_def)

text \<open>
  C3, at an input where a path names a package the root does not require. The root has no
  child \<open>x\<close>; with the two paths \<open>x@2.0.0\<close> and \<open>b@2.0.0\<close> the index tested is 1, the
  lookup of \<open>x@2.0.0\<close> at index 0 gives \<open>undefined\<close> and is the last step of its path, so
  no error is raised: the run succeeds and goes on to inflate the shrinkwrap, with the
  store as it was.
\<close>

theorem loadShrinkwrap_missing_segment_passes:
  "requires_find example_store (Some 0) (Some ''x'') = Inr None
   \<and> requires_find example_store (Some 0) (Some ''x@2.0.0'') = Inr None
   \<and> loadShrinkwrap npa succeed succeed (example_installer [[''x@2.0.0''], [''b@2.0.0'']]) =
       (Inr (), example_installer [[''x@2.0.0''], [''b@2.0.0'']])"
  by (simp add: loadShrinkwrap_def succeed_def example_installer_def reducer_def
        requires_find_def example_store_def pkg_def)

end
